theory Spec2Isabelle
  imports Main
begin

section \<open>Errors and persisted storage (src/lib/storage.ts)\<close>

text \<open>
  Every rejected promise and thrown exception of the source is a value of \<open>error\<close>;
  an asynchronous function of the source returns \<open>error + 'a\<close> (\<open>Inl\<close> is the
  rejection) together with the storage it leaves behind.
\<close>

datatype error = StorageError | SyntaxError | TypeError | RequestError string

text \<open>
  \<open>AsyncStorage\<close> is the device's key-value store. \<open>items\<close> is its content.
  \<open>faults\<close> scripts the outcome of the calls still to come, one entry per call in
  the order the calls are made: \<open>True\<close> makes that call reject, \<open>False\<close> lets it
  succeed, and calls past the end of the script succeed.
\<close>

record AsyncStorage =
  items :: "string \<rightharpoonup> string"
  faults :: "bool list"

definition KEYS_SPOTIFY_ID :: string where
  "KEYS_SPOTIFY_ID = ''@echoes:spotifyId''"

definition KEYS_USER_DATA :: string where
  "KEYS_USER_DATA = ''@echoes:userData''"

definition take_fault :: "AsyncStorage \<Rightarrow> bool \<times> AsyncStorage" where
  "take_fault st =
     (case faults st of
        [] \<Rightarrow> (False, st)
      | f # fs \<Rightarrow> (f, st\<lparr>faults := fs\<rparr>))"

definition getItem :: "string \<Rightarrow> AsyncStorage \<Rightarrow> (error + string option) \<times> AsyncStorage" where
  "getItem k st =
     (case take_fault st of
        (True, st') \<Rightarrow> (Inl StorageError, st')
      | (False, st') \<Rightarrow> (Inr (items st' k), st'))"

definition setItem :: "string \<Rightarrow> string \<Rightarrow> AsyncStorage \<Rightarrow> (error + unit) \<times> AsyncStorage" where
  "setItem k v st =
     (case take_fault st of
        (True, st') \<Rightarrow> (Inl StorageError, st')
      | (False, st') \<Rightarrow> (Inr (), st'\<lparr>items := (items st')(k \<mapsto> v)\<rparr>))"

definition removeItem :: "string \<Rightarrow> AsyncStorage \<Rightarrow> (error + unit) \<times> AsyncStorage" where
  "removeItem k st =
     (case take_fault st of
        (True, st') \<Rightarrow> (Inl StorageError, st')
      | (False, st') \<Rightarrow> (Inr (), st'\<lparr>items := (items st')(k := None)\<rparr>))"

text \<open>The persisted user record. An optional field is \<open>None\<close> when absent or null.\<close>

record StoredUser =
  su_id :: string
  su_spotifyId :: string
  su_displayName :: string
  su_email :: "string option"
  su_images :: "string list option"
  su_partnerId :: "string option"

text \<open>
  \<open>JSON.parse\<close> and \<open>JSON.stringify\<close> belong to the platform and are parameters of
  the model. \<open>JSON.parse\<close> throws on text that is not JSON; at the type the source
  declares for it, it yields a \<open>StoredUser\<close> or null.
\<close>

type_synonym json_parse = "string \<Rightarrow> error + StoredUser option"
type_synonym json_stringify = "StoredUser \<Rightarrow> string"

definition getStoredSpotifyId :: "AsyncStorage \<Rightarrow> (error + string option) \<times> AsyncStorage" where
  "getStoredSpotifyId st =
     (case getItem KEYS_SPOTIFY_ID st of
        (Inr v, st') \<Rightarrow> (Inr v, st')
      | (Inl e, st') \<Rightarrow> (Inr None, st'))"

definition setStoredSpotifyId :: "string \<Rightarrow> AsyncStorage \<Rightarrow> (error + unit) \<times> AsyncStorage" where
  "setStoredSpotifyId spotifyId st = setItem KEYS_SPOTIFY_ID spotifyId st"

definition removeStoredSpotifyId :: "AsyncStorage \<Rightarrow> (error + unit) \<times> AsyncStorage" where
  "removeStoredSpotifyId st = removeItem KEYS_SPOTIFY_ID st"

text \<open>\<open>json ? JSON.parse(json) : null\<close>: a missing record and the empty text are falsy.\<close>

definition getStoredUser :: "json_parse \<Rightarrow> AsyncStorage \<Rightarrow> (error + StoredUser option) \<times> AsyncStorage" where
  "getStoredUser parse st =
     (case getItem KEYS_USER_DATA st of
        (Inr json, st') \<Rightarrow>
          (case json of
             None \<Rightarrow> (Inr None, st')
           | Some j \<Rightarrow>
               if j = [] then (Inr None, st')
               else (case parse j of
                       Inr u \<Rightarrow> (Inr u, st')
                     | Inl e \<Rightarrow> (Inr None, st')))
      | (Inl e, st') \<Rightarrow> (Inr None, st'))"

definition setStoredUser :: "json_stringify \<Rightarrow> StoredUser \<Rightarrow> AsyncStorage \<Rightarrow> (error + unit) \<times> AsyncStorage" where
  "setStoredUser stringify u st = setItem KEYS_USER_DATA (stringify u) st"

definition removeStoredUser :: "AsyncStorage \<Rightarrow> (error + unit) \<times> AsyncStorage" where
  "removeStoredUser st = removeItem KEYS_USER_DATA st"

text \<open>
  \<open>Promise.all\<close> over the two removals: both are started, in this order, and each
  runs to its own end; the combined promise rejects when either of them rejects.
\<close>

definition clearAuthData :: "AsyncStorage \<Rightarrow> (error + unit) \<times> AsyncStorage" where
  "clearAuthData st =
     (case removeStoredSpotifyId st of
        (r1, st1) \<Rightarrow>
          (case removeStoredUser st1 of
             (r2, st2) \<Rightarrow>
               (case r1 of
                  Inl e \<Rightarrow> (Inl e, st2)
                | Inr _ \<Rightarrow> (r2, st2))))"

text \<open>None of the calls still to come rejects.\<close>

definition no_faults :: "AsyncStorage \<Rightarrow> bool" where
  "no_faults st = (True \<notin> set (faults st))"

section \<open>The session manager (AuthContext)\<close>

subsection \<open>The backend's profile (src/lib/api.ts)\<close>

record User =
  u_id :: string
  u_displayName :: string
  u_email :: "string option"
  u_images :: "string list option"

record AuthMeResponse =
  r_user :: User
  r_partnerId :: "string option"
  r_tokenExpiresAt :: string

text \<open>
  The two backend calls the session manager makes, as functions of the identity they
  are made for: \<open>api.getMe\<close> and \<open>api.logout\<close> reject on a transport failure and
  on every answer that is not 2xx.
\<close>

type_synonym api_getMe = "string \<Rightarrow> error + AuthMeResponse"
type_synonym api_logout = "string \<Rightarrow> error + unit"

subsection \<open>The state\<close>

record AuthState =
  isLoading :: bool
  isAuthenticated :: bool
  user :: "StoredUser option"
  spotifyId :: "string option"
  partnerId :: "string option"

definition initial_state :: AuthState where
  "initial_state =
     \<lparr>isLoading = True, isAuthenticated = False, user = None, spotifyId = None,
      partnerId = None\<rparr>"

text \<open>The state every failure branch sets.\<close>

definition unauthenticated :: AuthState where
  "unauthenticated =
     \<lparr>isLoading = False, isAuthenticated = False, user = None, spotifyId = None,
      partnerId = None\<rparr>"

text \<open>The state the two success branches set.\<close>

definition authenticated :: "string \<Rightarrow> StoredUser \<Rightarrow> AuthMeResponse \<Rightarrow> AuthState" where
  "authenticated sid u response =
     \<lparr>isLoading = False, isAuthenticated = True, user = Some u, spotifyId = Some sid,
      partnerId = r_partnerId response\<rparr>"

text \<open>The record the three operations build from a profile.\<close>

definition toStoredUser :: "AuthMeResponse \<Rightarrow> StoredUser" where
  "toStoredUser response =
     \<lparr>su_id = u_id (r_user response),
      su_spotifyId = u_id (r_user response),
      su_displayName = u_displayName (r_user response),
      su_email = u_email (r_user response),
      su_images = u_images (r_user response),
      su_partnerId = r_partnerId response\<rparr>"

text \<open>JavaScript truthiness of \<open>string | null\<close>: null and the empty string are falsy.\<close>

fun truthy :: "string option \<Rightarrow> bool" where
  "truthy None = False"
| "truthy (Some s) = (s \<noteq> [])"

text \<open>
  An operation returns how its promise settles, the states it sets in the order of its
  \<open>setState\<close> calls, and the storage it leaves. \<open>final s tr\<close> is the state after an
  operation that started in \<open>s\<close> and set \<open>tr\<close>.
\<close>

type_synonym auth_run = "(error + unit) \<times> AuthState list \<times> AsyncStorage"

definition settles :: "auth_run \<Rightarrow> error + unit" where
  "settles r = fst r"

definition updates :: "auth_run \<Rightarrow> AuthState list" where
  "updates r = fst (snd r)"

definition storage_after :: "auth_run \<Rightarrow> AsyncStorage" where
  "storage_after r = snd (snd r)"

definition final :: "AuthState \<Rightarrow> AuthState list \<Rightarrow> AuthState" where
  "final s tr = last (s # tr)"

subsection \<open>initializeAuth\<close>

text \<open>
  The inner \<open>catch\<close>: the session is invalid. When \<open>clearAuthData\<close> rejects, the
  outer \<open>catch\<close> sets the same state.
\<close>

definition session_invalid :: "AsyncStorage \<Rightarrow> auth_run" where
  "session_invalid st =
     (case clearAuthData st of
        (Inr _, st') \<Rightarrow> (Inr (), [unauthenticated], st')
      | (Inl e, st') \<Rightarrow> (Inr (), [unauthenticated], st'))"

definition initializeAuth :: "api_getMe \<Rightarrow> json_parse \<Rightarrow> json_stringify \<Rightarrow> AsyncStorage \<Rightarrow> auth_run" where
  "initializeAuth getMe parse stringify st =
     (case getStoredSpotifyId st of
        (Inl e, st1) \<Rightarrow> (Inr (), [unauthenticated], st1)
      | (Inr sid, st1) \<Rightarrow>
          (case getStoredUser parse st1 of
             (Inl e, st2) \<Rightarrow> (Inr (), [unauthenticated], st2)
           | (Inr storedUser, st2) \<Rightarrow>
               if truthy sid \<and> storedUser \<noteq> None then
                 (case getMe (the sid) of
                    Inl e \<Rightarrow> session_invalid st2
                  | Inr response \<Rightarrow>
                      (case setStoredUser stringify (toStoredUser response) st2 of
                         (Inl e, st3) \<Rightarrow> session_invalid st3
                       | (Inr _, st3) \<Rightarrow>
                           (Inr (),
                            [authenticated (the sid) (toStoredUser response) response],
                            st3)))
               else (Inr (), [unauthenticated], st2)))"

subsection \<open>login\<close>

text \<open>
  What \<open>WebBrowser.openAuthSessionAsync\<close> resolves to: \<open>type === 'success'\<close> with
  the callback URL, or one of the other types, which carry no URL.
\<close>

datatype AuthSessionResult = Success string | Cancel | Dismiss | Locked

text \<open>
  \<open>new URL(text)\<close> throws on text that is not a URL; otherwise \<open>searchParams\<close> is
  the list of the query's (name, value) pairs in order, and \<open>get\<close> returns the first
  value of a name. The parser is the platform's and a parameter of the model.
\<close>

type_synonym url_parse = "string \<Rightarrow> error + (string \<times> string) list"

definition searchParams_get :: "(string \<times> string) list \<Rightarrow> string \<Rightarrow> string option" where
  "searchParams_get params name = map_of params name"

definition handleAuthSuccess :: "api_getMe \<Rightarrow> json_stringify \<Rightarrow> string \<Rightarrow> AsyncStorage \<Rightarrow> auth_run" where
  "handleAuthSuccess getMe stringify sid st =
     (case getMe sid of
        Inl e \<Rightarrow> (Inl e, [], st)
      | Inr response \<Rightarrow>
          (case setStoredSpotifyId sid st of
             (Inl e, st1) \<Rightarrow> (Inl e, [], st1)
           | (Inr _, st1) \<Rightarrow>
               (case setStoredUser stringify (toStoredUser response) st1 of
                  (Inl e, st2) \<Rightarrow> (Inl e, [], st2)
                | (Inr _, st2) \<Rightarrow>
                    (Inr (), [authenticated sid (toStoredUser response) response], st2))))"

text \<open>
  The body of the \<open>try\<close> of \<open>login\<close>, after the first \<open>setState\<close>: how it ends
  (\<open>Inl\<close> when it throws), the states it sets and the storage.
\<close>

definition login_try :: "(error + AuthSessionResult) \<Rightarrow> url_parse \<Rightarrow> api_getMe \<Rightarrow> json_stringify \<Rightarrow> AsyncStorage \<Rightarrow> auth_run" where
  "login_try browser parse_url getMe stringify st =
     (case browser of
        Inl e \<Rightarrow> (Inl e, [], st)
      | Inr result \<Rightarrow>
          (case result of
             Success url \<Rightarrow>
               if url \<noteq> [] then
                 (case parse_url url of
                    Inl e \<Rightarrow> (Inl e, [], st)
                  | Inr params \<Rightarrow>
                      if truthy (searchParams_get params ''spotifyId'')
                      then handleAuthSuccess getMe stringify
                             (the (searchParams_get params ''spotifyId'')) st
                      else (Inr (), [], st))
               else (Inr (), [], st)
           | _ \<Rightarrow> (Inr (), [], st)))"

text \<open>
  \<open>login\<close>: the \<open>catch\<close> logs whatever the body threw and the \<open>finally\<close> clears
  \<open>isLoading\<close> in the latest state, so the promise always resolves.
\<close>

definition login :: "(error + AuthSessionResult) \<Rightarrow> url_parse \<Rightarrow> api_getMe \<Rightarrow> json_stringify \<Rightarrow> AuthState \<Rightarrow> AsyncStorage \<Rightarrow> auth_run" where
  "login browser parse_url getMe stringify s st =
     (case login_try browser parse_url getMe stringify st of
        (r, tr, st') \<Rightarrow>
          (Inr (),
           [s\<lparr>isLoading := True\<rparr>] @ tr @
           [(final (s\<lparr>isLoading := True\<rparr>) tr)\<lparr>isLoading := False\<rparr>],
           st'))"

subsection \<open>logout\<close>

text \<open>
  The \<open>catch\<close> of \<open>logout\<close>, entered after \<open>isLoading\<close> was set in \<open>s1\<close>: it
  clears the storage again and only then resets the state, so a second rejection
  leaves the promise rejected and the state as it was.
\<close>

definition logout_catch :: "AuthState \<Rightarrow> AsyncStorage \<Rightarrow> auth_run" where
  "logout_catch s1 st =
     (case clearAuthData st of
        (Inr _, st') \<Rightarrow> (Inr (), [s1, unauthenticated], st')
      | (Inl e, st') \<Rightarrow> (Inl e, [s1], st'))"

definition logout :: "api_logout \<Rightarrow> AuthState \<Rightarrow> AsyncStorage \<Rightarrow> auth_run" where
  "logout apiLogout s st =
     (case (if truthy (spotifyId s) then apiLogout (the (spotifyId s)) else Inr ()) of
        Inl e \<Rightarrow> logout_catch (s\<lparr>isLoading := True\<rparr>) st
      | Inr _ \<Rightarrow>
          (case clearAuthData st of
             (Inr _, st1) \<Rightarrow> (Inr (), [s\<lparr>isLoading := True\<rparr>, unauthenticated], st1)
           | (Inl e, st1) \<Rightarrow> logout_catch (s\<lparr>isLoading := True\<rparr>) st1))"

subsection \<open>refreshUser\<close>

definition refreshUser :: "api_getMe \<Rightarrow> json_stringify \<Rightarrow> AuthState \<Rightarrow> AsyncStorage \<Rightarrow> auth_run" where
  "refreshUser getMe stringify s st =
     (if \<not> truthy (spotifyId s) then (Inr (), [], st)
      else
        (case getMe (the (spotifyId s)) of
           Inl e \<Rightarrow> (Inr (), [], st)
         | Inr response \<Rightarrow>
             (case setStoredUser stringify (toStoredUser response) st of
                (Inl e, st1) \<Rightarrow> (Inr (), [], st1)
              | (Inr _, st1) \<Rightarrow>
                  (Inr (),
                   [s\<lparr>user := Some (toStoredUser response),
                      partnerId := r_partnerId response\<rparr>],
                   st1))))"

subsection \<open>The states the session manager reaches\<close>

text \<open>
  From the initial state, every state set by a run of one of the four operations, on
  any storage and with any answers of the backend, the browser and the platform.
\<close>

inductive auth_reachable :: "AuthState \<Rightarrow> bool" where
  start: "auth_reachable initial_state"
| by_initializeAuth:
    "s' \<in> set (updates (initializeAuth getMe parse stringify st)) \<Longrightarrow> auth_reachable s'"
| by_login:
    "auth_reachable s \<Longrightarrow> s' \<in> set (updates (login browser parse_url getMe stringify s st))
       \<Longrightarrow> auth_reachable s'"
| by_logout:
    "auth_reachable s \<Longrightarrow> s' \<in> set (updates (logout apiLogout s st))
       \<Longrightarrow> auth_reachable s'"
| by_refreshUser:
    "auth_reachable s \<Longrightarrow> s' \<in> set (updates (refreshUser getMe stringify s st))
       \<Longrightarrow> auth_reachable s'"

text \<open>
  The fact that carries through every update: the authenticated flag says exactly that
  an identity is held, and an authenticated state has a user.
\<close>

definition auth_consistent :: "AuthState \<Rightarrow> bool" where
  "auth_consistent s =
     (isAuthenticated s = (spotifyId s \<noteq> None) \<and> (isAuthenticated s \<longrightarrow> user s \<noteq> None))"

section \<open>The presence and sync channel (SocketContext)\<close>

subsection \<open>Payloads\<close>

text \<open>A snapshot of the partner's playback; positions and times are in milliseconds.\<close>

record PartnerStatus =
  isListening :: bool
  ps_spotifyId :: "string option"
  playlistId :: "string option"
  playlistName :: "string option"
  trackUri :: "string option"
  trackName :: "string option"
  artistName :: "string option"
  positionMs :: "int option"
  isPlaying :: "bool option"
  updatedAt :: "int option"

record SyncCommand =
  sc_trackUri :: string
  sc_trackName :: string
  sc_artistName :: string
  sc_playlistId :: string
  sc_playlistName :: string
  sc_positionMs :: int

subsection \<open>Sockets\<close>

text \<open>
  A socket made by \<open>io\<close>. \<open>connected\<close> is the socket's own flag, true between the
  transport's \<open>connect\<close> and \<open>disconnect\<close>. \<open>closed\<close> holds once
  \<open>disconnect()\<close> was called on it: the socket is destroyed and the transport
  delivers nothing on it any more. \<open>sync_listeners\<close> are the listeners of
  \<open>session:sync\<close> in the order of their registration; a listener is a handler closure,
  identified by the number it was created under, with the callback it wraps.
\<close>

record 'cb Socket =
  query_spotifyId :: "string option"
  connected :: bool
  closed :: bool
  sync_listeners :: "(nat \<times> 'cb) list"

definition io :: "string option \<Rightarrow> 'cb Socket" where
  "io sid = \<lparr>query_spotifyId = sid, connected = False, closed = False, sync_listeners = []\<rparr>"

definition socket_disconnect :: "'cb Socket \<Rightarrow> 'cb Socket" where
  "socket_disconnect sk = sk\<lparr>connected := False, closed := True\<rparr>"

definition socket_on :: "nat \<times> 'cb \<Rightarrow> 'cb Socket \<Rightarrow> 'cb Socket" where
  "socket_on l sk = sk\<lparr>sync_listeners := sync_listeners sk @ [l]\<rparr>"

text \<open>\<open>off\<close> removes the first listener that is the given handler, and no other.\<close>

fun remove_listener :: "nat \<Rightarrow> (nat \<times> 'cb) list \<Rightarrow> (nat \<times> 'cb) list" where
  "remove_listener h [] = []"
| "remove_listener h (l # ls) = (if fst l = h then ls else l # remove_listener h ls)"

definition socket_off :: "nat \<Rightarrow> 'cb Socket \<Rightarrow> 'cb Socket" where
  "socket_off h sk = sk\<lparr>sync_listeners := remove_listener h (sync_listeners sk)\<rparr>"

subsection \<open>The provider's state\<close>

text \<open>
  \<open>sockets\<close> holds every socket the provider has made, socket \<open>i\<close> at index \<open>i\<close>;
  \<open>socketRef\<close> is the index of the one it holds. \<open>handlers_made\<close> counts the handler
  closures created so far, and \<open>calls\<close> records the callbacks invoked so far, each with
  the command it was given.
\<close>

record 'cb SocketProvider =
  sockets :: "'cb Socket list"
  socketRef :: "nat option"
  isConnected :: bool
  isPartnerOnline :: bool
  partnerStatus :: "PartnerStatus option"
  handlers_made :: nat
  calls :: "('cb \<times> SyncCommand) list"

definition provider_init :: "'cb SocketProvider" where
  "provider_init =
     \<lparr>sockets = [], socketRef = None, isConnected = False, isPartnerOnline = False,
      partnerStatus = None, handlers_made = 0, calls = []\<rparr>"

definition socket_at :: "'cb SocketProvider \<Rightarrow> nat \<Rightarrow> 'cb Socket option" where
  "socket_at m i = (if i < length (sockets m) then Some (sockets m ! i) else None)"

definition update_socket :: "nat \<Rightarrow> ('cb Socket \<Rightarrow> 'cb Socket) \<Rightarrow> 'cb SocketProvider \<Rightarrow> 'cb SocketProvider" where
  "update_socket i f m =
     (if i < length (sockets m) then m\<lparr>sockets := (sockets m)[i := f (sockets m ! i)]\<rparr> else m)"

text \<open>The sockets that are open: made and not closed.\<close>

definition open_sockets :: "'cb SocketProvider \<Rightarrow> nat list" where
  "open_sockets m = filter (\<lambda>i. \<not> closed (sockets m ! i)) [0..<length (sockets m)]"

subsection \<open>connectSocket and disconnectSocket\<close>

text \<open>\<open>socketRef.current?.connected\<close>\<close>

definition held_connected :: "'cb SocketProvider \<Rightarrow> bool" where
  "held_connected m =
     (case socketRef m of
        None \<Rightarrow> False
      | Some i \<Rightarrow> (case socket_at m i of None \<Rightarrow> False | Some sk \<Rightarrow> connected sk))"

definition connectSocket :: "string option \<Rightarrow> 'cb SocketProvider \<Rightarrow> 'cb SocketProvider" where
  "connectSocket sid m =
     (if held_connected m then m
      else m\<lparr>sockets := sockets m @ [io sid], socketRef := Some (length (sockets m))\<rparr>)"

definition disconnectSocket :: "'cb SocketProvider \<Rightarrow> 'cb SocketProvider" where
  "disconnectSocket m =
     (case socketRef m of
        None \<Rightarrow> m
      | Some i \<Rightarrow>
          (update_socket i socket_disconnect m)
            \<lparr>socketRef := None, isConnected := False, isPartnerOnline := False,
             partnerStatus := None\<rparr>)"

subsection \<open>The listeners connectSocket registers\<close>

definition on_connect :: "'cb SocketProvider \<Rightarrow> 'cb SocketProvider" where
  "on_connect m = m\<lparr>isConnected := True\<rparr>"

definition on_disconnect :: "'cb SocketProvider \<Rightarrow> 'cb SocketProvider" where
  "on_disconnect m = m\<lparr>isConnected := False, isPartnerOnline := False, partnerStatus := None\<rparr>"

definition on_partner_online :: "'cb SocketProvider \<Rightarrow> 'cb SocketProvider" where
  "on_partner_online m = m\<lparr>isPartnerOnline := True\<rparr>"

definition on_partner_offline :: "'cb SocketProvider \<Rightarrow> 'cb SocketProvider" where
  "on_partner_offline m = m\<lparr>isPartnerOnline := False, partnerStatus := None\<rparr>"

definition on_partner_status :: "PartnerStatus \<Rightarrow> 'cb SocketProvider \<Rightarrow> 'cb SocketProvider" where
  "on_partner_status data m =
     (if isListening data
      then m\<lparr>partnerStatus := Some data, isPartnerOnline := True\<rparr>
      else m\<lparr>partnerStatus := Some data\<rparr>)"

subsection \<open>Inbound events\<close>

datatype event =
    Connect
  | Disconnect
  | PartnerOnline string
  | PartnerOffline string
  | PartnerStatusEvent PartnerStatus
  | SessionSync SyncCommand

text \<open>
  The transport emits an event on socket \<open>i\<close>: the socket's listeners run. A closed
  socket emits nothing.
\<close>

definition deliver :: "nat \<Rightarrow> event \<Rightarrow> 'cb SocketProvider \<Rightarrow> 'cb SocketProvider" where
  "deliver i ev m =
     (case socket_at m i of
        None \<Rightarrow> m
      | Some sk \<Rightarrow>
          if closed sk then m
          else
            (case ev of
               Connect \<Rightarrow> on_connect (update_socket i (\<lambda>k. k\<lparr>connected := True\<rparr>) m)
             | Disconnect \<Rightarrow> on_disconnect (update_socket i (\<lambda>k. k\<lparr>connected := False\<rparr>) m)
             | PartnerOnline p \<Rightarrow> on_partner_online m
             | PartnerOffline p \<Rightarrow> on_partner_offline m
             | PartnerStatusEvent data \<Rightarrow> on_partner_status data m
             | SessionSync command \<Rightarrow>
                 m\<lparr>calls := calls m @ map (\<lambda>l. (snd l, command)) (sync_listeners sk)\<rparr>))"

subsection \<open>onSyncCommand\<close>

text \<open>
  The function \<open>onSyncCommand\<close> returns: \<open>off\<close> of the handler on the socket held
  when it is called.
\<close>

definition detach_sync :: "nat \<Rightarrow> 'cb SocketProvider \<Rightarrow> 'cb SocketProvider" where
  "detach_sync h m =
     (case socketRef m of
        None \<Rightarrow> m
      | Some i \<Rightarrow> update_socket i (socket_off h) m)"

text \<open>
  \<open>onSyncCommand\<close> wraps the callback in a new handler, registers it on the socket
  held now, if any, and returns the detach function with the new state.
\<close>

definition onSyncCommand :: "'cb \<Rightarrow> 'cb SocketProvider \<Rightarrow> ('cb SocketProvider \<Rightarrow> 'cb SocketProvider) \<times> 'cb SocketProvider" where
  "onSyncCommand callback m =
     (detach_sync (handlers_made m),
      (case socketRef m of
         None \<Rightarrow> m\<lparr>handlers_made := Suc (handlers_made m)\<rparr>
       | Some i \<Rightarrow>
           (update_socket i (socket_on (handlers_made m, callback)) m)
             \<lparr>handlers_made := Suc (handlers_made m)\<rparr>))"

subsection \<open>The effect that drives the connection\<close>

text \<open>
  The provider's effect on \<open>[isAuthenticated, spotifyId]\<close>: its body connects or
  disconnects, its cleanup disconnects. The body runs at mount; whenever either value
  changes the cleanup runs and then the body; the cleanup runs at unmount.
  \<open>connectSocket\<close> and \<open>disconnectSocket\<close> have no other caller and are not part
  of the context's value.
\<close>

definition effect_body :: "bool \<Rightarrow> string option \<Rightarrow> 'cb SocketProvider \<Rightarrow> 'cb SocketProvider" where
  "effect_body isAuth sid m =
     (if isAuth \<and> truthy sid then connectSocket sid m else disconnectSocket m)"

definition effect_cleanup :: "'cb SocketProvider \<Rightarrow> 'cb SocketProvider" where
  "effect_cleanup m = disconnectSocket m"

inductive provider_reachable :: "'cb SocketProvider \<Rightarrow> bool" where
  created: "provider_reachable provider_init"
| mounted: "provider_reachable (effect_body isAuth sid provider_init)"
| rerun: "provider_reachable m \<Longrightarrow> provider_reachable (effect_body isAuth sid (effect_cleanup m))"
| unmounted: "provider_reachable m \<Longrightarrow> provider_reachable (effect_cleanup m)"
| inbound: "provider_reachable m \<Longrightarrow> provider_reachable (deliver i ev m)"
| subscribed: "provider_reachable m \<Longrightarrow> provider_reachable (snd (onSyncCommand callback m))"
| detached:
    "provider_reachable m \<Longrightarrow> h < handlers_made m \<Longrightarrow> provider_reachable (detach_sync h m)"

subsection \<open>Listeners and deliveries\<close>

text \<open>The listeners of \<open>session:sync\<close> on socket \<open>j\<close>.\<close>

definition listeners_at :: "'cb SocketProvider \<Rightarrow> nat \<Rightarrow> (nat \<times> 'cb) list" where
  "listeners_at m j = (case socket_at m j of None \<Rightarrow> [] | Some sk \<Rightarrow> sync_listeners sk)"

text \<open>The transport emits \<open>session:sync\<close> on socket \<open>i\<close> once for each command, in order.\<close>

definition sync_all :: "nat \<Rightarrow> SyncCommand list \<Rightarrow> 'cb SocketProvider \<Rightarrow> 'cb SocketProvider" where
  "sync_all i commands m = foldl (\<lambda>m' c. deliver i (SessionSync c) m') m commands"

text \<open>Two registrations, then the detach function of the first is called.\<close>

definition detach_first_of_two :: "'cb \<Rightarrow> 'cb \<Rightarrow> 'cb SocketProvider \<Rightarrow> 'cb SocketProvider" where
  "detach_first_of_two cb1 cb2 m =
     (case onSyncCommand cb1 m of
        (detach1, m1) \<Rightarrow>
          (case onSyncCommand cb2 m1 of
             (detach2, m2) \<Rightarrow> detach1 m2))"

text \<open>
  What holds of every state the provider reaches: with no socket held the three
  observable fields are at their defaults; a held socket exists; the open sockets are
  exactly the held one; and every registered handler was created before now.
\<close>

definition provider_inv :: "'cb SocketProvider \<Rightarrow> bool" where
  "provider_inv m =
     ((case socketRef m of
         None \<Rightarrow> \<not> isConnected m \<and> \<not> isPartnerOnline m \<and> partnerStatus m = None
       | Some i \<Rightarrow> i < length (sockets m)) \<and>
      (\<forall>j < length (sockets m). closed (sockets m ! j) = (socketRef m \<noteq> Some j)) \<and>
      (\<forall>j < length (sockets m). \<forall>l \<in> set (sync_listeners (sockets m ! j)).
         fst l < handlers_made m))"

section \<open>Example inputs\<close>

definition demo_user :: User where
  "demo_user = \<lparr>u_id = ''u1'', u_displayName = ''Ada'', u_email = None, u_images = None\<rparr>"

definition demo_response :: AuthMeResponse where
  "demo_response =
     \<lparr>r_user = demo_user, r_partnerId = Some ''u2'', r_tokenExpiresAt = ''2030-01-01''\<rparr>"

definition demo_stringify :: json_stringify where
  "demo_stringify u = ''user:'' @ su_id u"

definition demo_parse :: json_parse where
  "demo_parse j =
     (if j = ''user:u1'' then Inr (Some (toStoredUser demo_response)) else Inl SyntaxError)"

definition getMe_ok :: api_getMe where
  "getMe_ok sid = Inr demo_response"

definition getMe_down :: api_getMe where
  "getMe_down sid = Inl (RequestError ''Request failed'')"

definition logout_down :: api_logout where
  "logout_down sid = Inl (RequestError ''Request failed'')"

text \<open>A storage holding the pair of identity \<open>u1\<close>, with a script of faults.\<close>

definition demo_store :: "bool list \<Rightarrow> AsyncStorage" where
  "demo_store fs =
     \<lparr>items = [KEYS_SPOTIFY_ID \<mapsto> ''u1'', KEYS_USER_DATA \<mapsto> ''user:u1''], faults = fs\<rparr>"

definition empty_store :: AsyncStorage where
  "empty_store = \<lparr>items = Map.empty, faults = []\<rparr>"

text \<open>A storage whose next read rejects, and one whose user record is not JSON.\<close>

definition broken_store :: AsyncStorage where
  "broken_store = \<lparr>items = Map.empty, faults = [True]\<rparr>"

definition garbled_store :: AsyncStorage where
  "garbled_store = \<lparr>items = [KEYS_USER_DATA \<mapsto> ''{oops''], faults = []\<rparr>"

definition demo_session :: AuthState where
  "demo_session = authenticated ''u1'' (toStoredUser demo_response) demo_response"

definition demo_parse_url :: url_parse where
  "demo_parse_url url =
     (if url = ''echoes://auth/callback'' then Inr []
      else if url = ''echoes://auth/callback?spotifyId=u1'' then Inr [(''spotifyId'', ''u1'')]
      else Inl TypeError)"

definition demo_command :: "string \<Rightarrow> SyncCommand" where
  "demo_command t =
     \<lparr>sc_trackUri = t, sc_trackName = ''X'', sc_artistName = ''Y'', sc_playlistId = ''p'',
      sc_playlistName = ''P'', sc_positionMs = 0\<rparr>"

definition demo_status :: "bool \<Rightarrow> string \<Rightarrow> PartnerStatus" where
  "demo_status listening t =
     \<lparr>isListening = listening, ps_spotifyId = None, playlistId = None, playlistName = None,
      trackUri = None, trackName = Some t, artistName = None, positionMs = None,
      isPlaying = None, updatedAt = None\<rparr>"

text \<open>The provider after mounting for \<open>u1\<close> and the transport's \<open>connect\<close>.\<close>

definition demo_channel :: "string SocketProvider" where
  "demo_channel = deliver 0 Connect (effect_body True (Some ''u1'') provider_init)"

section \<open>Unfolding rules\<close>

lemmas storage_defs =
  getStoredSpotifyId_def getStoredUser_def setStoredSpotifyId_def setStoredUser_def
  removeStoredSpotifyId_def removeStoredUser_def clearAuthData_def
  getItem_def setItem_def removeItem_def take_fault_def
  KEYS_SPOTIFY_ID_def KEYS_USER_DATA_def

lemmas demo_defs =
  demo_user_def demo_response_def demo_stringify_def demo_parse_def getMe_ok_def
  getMe_down_def demo_store_def

lemmas run_defs = final_def updates_def storage_after_def settles_def

lemmas socket_defs =
  connectSocket_def disconnectSocket_def held_connected_def socket_at_def update_socket_def
  provider_init_def io_def open_sockets_def deliver_def effect_body_def effect_cleanup_def
  on_connect_def on_disconnect_def on_partner_online_def on_partner_offline_def
  on_partner_status_def socket_disconnect_def socket_on_def socket_off_def
  onSyncCommand_def detach_sync_def

section \<open>Persisted storage\<close>

lemma take_fault_works:
  assumes "no_faults st"
  shows "\<exists>st'. take_fault st = (False, st') \<and> items st' = items st \<and> no_faults st'"
  using assms by (cases "faults st") (auto simp: take_fault_def no_faults_def)



lemma removeItem_works:
  assumes "no_faults st"
  shows "\<exists>st'. removeItem k st = (Inr (), st') \<and> items st' = (items st)(k := None) \<and> no_faults st'"
  using take_fault_works [OF assms] by (auto simp: removeItem_def no_faults_def)

lemma clearAuthData_works:
  assumes "no_faults st"
  shows "\<exists>st'. clearAuthData st = (Inr (), st') \<and>
     items st' KEYS_SPOTIFY_ID = None \<and> items st' KEYS_USER_DATA = None \<and> no_faults st'"
proof -
  obtain st1 where 1: "removeItem KEYS_SPOTIFY_ID st = (Inr (), st1)"
      "items st1 = (items st)(KEYS_SPOTIFY_ID := None)" "no_faults st1"
    using removeItem_works [OF assms] by blast
  obtain st2 where 2: "removeItem KEYS_USER_DATA st1 = (Inr (), st2)"
      "items st2 = (items st1)(KEYS_USER_DATA := None)" "no_faults st2"
    using removeItem_works [OF 1(3)] by blast
  show ?thesis
    using 1 2 by (simp add: clearAuthData_def removeStoredSpotifyId_def removeStoredUser_def)
qed

lemma clearAuthData_ok:
  "fst (clearAuthData st) = Inr () \<Longrightarrow>
     items (snd (clearAuthData st)) KEYS_SPOTIFY_ID = None \<and>
     items (snd (clearAuthData st)) KEYS_USER_DATA = None"
  by (auto simp: clearAuthData_def removeStoredSpotifyId_def removeStoredUser_def
      removeItem_def take_fault_def split: list.splits prod.splits sum.splits bool.splits if_splits)

text \<open>
  C10. \<open>getStoredSpotifyId\<close> and \<open>getStoredUser\<close> never reject: on every storage,
  with every script of faults and every parser, they resolve to a value; and they
  resolve to null when the read rejects and when the stored user record does not parse.
\<close>

theorem stored_reads_never_throw:
  "(\<exists>v. fst (getStoredSpotifyId st) = Inr v) \<and>
   (\<exists>u. fst (getStoredUser parse st) = Inr u) \<and>
   (\<forall>e. fst (getItem KEYS_SPOTIFY_ID st) = Inl e \<longrightarrow> fst (getStoredSpotifyId st) = Inr None) \<and>
   (\<forall>e. fst (getItem KEYS_USER_DATA st) = Inl e \<longrightarrow> fst (getStoredUser parse st) = Inr None) \<and>
   (\<forall>j e. fst (getItem KEYS_USER_DATA st) = Inr (Some j) \<longrightarrow> parse j = Inl e \<longrightarrow>
      fst (getStoredUser parse st) = Inr None)"
  by (auto simp: getStoredSpotifyId_def getStoredUser_def
      split: prod.splits sum.splits option.splits)

theorem stored_reads_never_throw_witness:
  "fst (getItem KEYS_SPOTIFY_ID broken_store) = Inl StorageError \<and>
   fst (getStoredSpotifyId broken_store) = Inr None \<and>
   fst (getItem KEYS_USER_DATA broken_store) = Inl StorageError \<and>
   fst (getStoredUser (\<lambda>j. Inl SyntaxError) broken_store) = Inr None \<and>
   fst (getItem KEYS_USER_DATA garbled_store) = Inr (Some ''{oops'') \<and>
   fst (getStoredUser (\<lambda>j. Inl SyntaxError) garbled_store) = Inr None"
  using stored_reads_never_throw [of broken_store "\<lambda>j. Inl SyntaxError"]
    stored_reads_never_throw [of garbled_store "\<lambda>j. Inl SyntaxError"]
  by (simp add: broken_store_def garbled_store_def getItem_def take_fault_def)

section \<open>initializeAuth\<close>





section \<open>logout\<close>

text \<open>
  What holds of \<open>logout\<close>: on a storage whose calls do not reject it resolves in
  the unauthenticated state with both records removed, whatever the server-side call
  does; and whenever it resolves at all, it has done so.
\<close>

lemma logout_with_working_storage:
  assumes "no_faults st"
  shows "settles (logout apiLogout s st) = Inr () \<and>
     final s (updates (logout apiLogout s st)) = unauthenticated \<and>
     items (storage_after (logout apiLogout s st)) KEYS_SPOTIFY_ID = None \<and>
     items (storage_after (logout apiLogout s st)) KEYS_USER_DATA = None"
proof -
  obtain st' where c: "clearAuthData st = (Inr (), st')"
      "items st' KEYS_SPOTIFY_ID = None" "items st' KEYS_USER_DATA = None"
    using clearAuthData_works [OF assms] by blast
  then have "logout apiLogout s st = (Inr (), [s\<lparr>isLoading := True\<rparr>, unauthenticated], st')"
    by (simp add: logout_def logout_catch_def split: sum.splits)
  with c show ?thesis by (simp add: run_defs)
qed

lemma logout_resolved:
  assumes "settles (logout apiLogout s st) = Inr ()"
  shows "final s (updates (logout apiLogout s st)) = unauthenticated \<and>
     items (storage_after (logout apiLogout s st)) KEYS_SPOTIFY_ID = None \<and>
     items (storage_after (logout apiLogout s st)) KEYS_USER_DATA = None"
  using assms clearAuthData_ok [of st] clearAuthData_ok [of "snd (clearAuthData st)"]
  by (auto simp: logout_def logout_catch_def run_defs split: sum.splits prod.splits if_splits)

text \<open>
  C2. The specification asks that \<open>logout\<close> always end unauthenticated. The code
  does not, when the server-side call throws and a removal of a persisted record
  rejects in the handler: the handler clears the storage before it resets the state,
  so the promise rejects and the state is left as it was, with \<open>isLoading\<close> set.
\<close>

theorem logout_stuck_when_removal_rejects:
  assumes "spotifyId s = Some sid" and "sid \<noteq> []" and "apiLogout sid = Inl e"
    and "fst (clearAuthData st) = Inl e'"
  shows "settles (logout apiLogout s st) = Inl e' \<and>
     updates (logout apiLogout s st) = [s\<lparr>isLoading := True\<rparr>] \<and>
     final s (updates (logout apiLogout s st)) = s\<lparr>isLoading := True\<rparr>"
  using assms
  by (cases "clearAuthData st") (auto simp: logout_def logout_catch_def run_defs)

theorem logout_stuck_when_removal_rejects_witness:
  "spotifyId demo_session = Some ''u1'' \<and>
   logout_down ''u1'' = Inl (RequestError ''Request failed'') \<and>
   fst (clearAuthData (demo_store [True])) = Inl StorageError \<and>
   settles (logout logout_down demo_session (demo_store [True])) = Inl StorageError \<and>
   isAuthenticated (final demo_session (updates (logout logout_down demo_session (demo_store [True])))) \<and>
   isLoading (final demo_session (updates (logout logout_down demo_session (demo_store [True])))) \<and>
   spotifyId (final demo_session (updates (logout logout_down demo_session (demo_store [True])))) = Some ''u1''"
proof -
  have a: "spotifyId demo_session = Some ''u1''"
    by (simp add: demo_session_def authenticated_def)
  have b: "''u1'' \<noteq> []" by simp
  have c: "logout_down ''u1'' = Inl (RequestError ''Request failed'')"
    by (simp add: logout_down_def)
  have d: "fst (clearAuthData (demo_store [True])) = Inl StorageError"
    by (simp add: storage_defs demo_store_def)
  show ?thesis
    using a c d logout_stuck_when_removal_rejects [where apiLogout = logout_down, OF a b c d]
    by (simp add: demo_session_def authenticated_def final_def)
qed

section \<open>login\<close>

text \<open>
  C4. The specification asks that a callback without an identity be surfaced to the
  caller as an error. The code does not do that: when the callback URL parses and
  carries no \<open>spotifyId\<close>, \<open>login\<close> resolves normally. It sets \<open>isLoading\<close>
  and clears it again, changes nothing else in the state, and writes nothing to storage.
\<close>

theorem login_without_identity_resolves:
  assumes "url \<noteq> []" and "parse_url url = Inr params"
    and "searchParams_get params ''spotifyId'' = None"
  shows "login (Inr (Success url)) parse_url getMe stringify s st =
     (Inr (), [s\<lparr>isLoading := True\<rparr>, s\<lparr>isLoading := False\<rparr>], st)"
  using assms by (simp add: login_def login_try_def final_def)

theorem login_without_identity_resolves_witness:
  "demo_parse_url ''echoes://auth/callback'' = Inr [] \<and>
   searchParams_get [] ''spotifyId'' = None \<and>
   settles (login (Inr (Success ''echoes://auth/callback'')) demo_parse_url getMe_ok
      demo_stringify unauthenticated empty_store) = Inr () \<and>
   final unauthenticated (updates (login (Inr (Success ''echoes://auth/callback''))
      demo_parse_url getMe_ok demo_stringify unauthenticated empty_store)) = unauthenticated \<and>
   storage_after (login (Inr (Success ''echoes://auth/callback'')) demo_parse_url getMe_ok
      demo_stringify unauthenticated empty_store) = empty_store"
proof -
  have u: "''echoes://auth/callback'' \<noteq> []" by simp
  have p: "demo_parse_url ''echoes://auth/callback'' = Inr []"
    by (simp add: demo_parse_url_def)
  have g: "searchParams_get [] ''spotifyId'' = None"
    by (simp add: searchParams_get_def)
  show ?thesis
    using u p g login_without_identity_resolves [of "''echoes://auth/callback''"
        demo_parse_url "[]" getMe_ok demo_stringify unauthenticated empty_store]
    by (simp add: run_defs unauthenticated_def)
qed

section \<open>refreshUser\<close>

text \<open>
  C8. \<open>refreshUser\<close> does nothing when no identity is held. When the profile fetch
  fails it sets no state and leaves the storage as it was. It never changes
  \<open>isLoading\<close>, \<open>isAuthenticated\<close> or \<open>spotifyId\<close>; and the state it ends in
  is the one it started in, unless the fetch succeeded, in which case only \<open>user\<close>
  and \<open>partnerId\<close> are replaced by the fetched profile's.
\<close>

theorem refreshUser_frame:
  "(\<not> truthy (spotifyId s) \<longrightarrow> refreshUser getMe stringify s st = (Inr (), [], st)) \<and>
   (\<forall>sid e. spotifyId s = Some sid \<longrightarrow> getMe sid = Inl e \<longrightarrow>
      refreshUser getMe stringify s st = (Inr (), [], st)) \<and>
   (\<forall>sid r st'. spotifyId s = Some sid \<longrightarrow> sid \<noteq> [] \<longrightarrow> getMe sid = Inr r \<longrightarrow>
      setStoredUser stringify (toStoredUser r) st = (Inr (), st') \<longrightarrow>
      refreshUser getMe stringify s st =
        (Inr (), [s\<lparr>user := Some (toStoredUser r), partnerId := r_partnerId r\<rparr>], st')) \<and>
   isLoading (final s (updates (refreshUser getMe stringify s st))) = isLoading s \<and>
   isAuthenticated (final s (updates (refreshUser getMe stringify s st))) = isAuthenticated s \<and>
   spotifyId (final s (updates (refreshUser getMe stringify s st))) = spotifyId s \<and>
   (final s (updates (refreshUser getMe stringify s st)) = s \<or>
    (\<exists>sid r. spotifyId s = Some sid \<and> getMe sid = Inr r \<and>
       final s (updates (refreshUser getMe stringify s st)) =
         s\<lparr>user := Some (toStoredUser r), partnerId := r_partnerId r\<rparr>))"
  by (cases "spotifyId s")
    (auto simp: refreshUser_def final_def updates_def split: sum.splits prod.splits)

theorem refreshUser_frame_witness:
  "\<not> truthy (spotifyId unauthenticated) \<and>
   refreshUser getMe_ok demo_stringify unauthenticated (demo_store []) = (Inr (), [], demo_store []) \<and>
   spotifyId demo_session = Some ''u1'' \<and> getMe_down ''u1'' = Inl (RequestError ''Request failed'') \<and>
   refreshUser getMe_down demo_stringify demo_session (demo_store []) = (Inr (), [], demo_store []) \<and>
   final demo_session (updates (refreshUser getMe_down demo_stringify demo_session (demo_store [])))
     = demo_session \<and>
   getMe_ok ''u1'' = Inr demo_response \<and>
   isAuthenticated (final (demo_session\<lparr>user := None\<rparr>)
     (updates (refreshUser getMe_ok demo_stringify (demo_session\<lparr>user := None\<rparr>) (demo_store [])))) \<and>
   user (final (demo_session\<lparr>user := None\<rparr>)
     (updates (refreshUser getMe_ok demo_stringify (demo_session\<lparr>user := None\<rparr>) (demo_store []))))
     = Some (toStoredUser demo_response)"
proof -
  have a: "\<not> truthy (spotifyId unauthenticated)"
    by (simp add: unauthenticated_def)
  have b: "spotifyId demo_session = Some ''u1''"
    by (simp add: demo_session_def authenticated_def)
  have c: "getMe_down ''u1'' = Inl (RequestError ''Request failed'')"
    by (simp add: getMe_down_def)
  have d: "getMe_ok ''u1'' = Inr demo_response"
    by (simp add: getMe_ok_def)
  have e: "setStoredUser demo_stringify (toStoredUser demo_response) (demo_store []) =
      (Inr (), (demo_store [])\<lparr>items := (items (demo_store []))(KEYS_USER_DATA \<mapsto>
         demo_stringify (toStoredUser demo_response))\<rparr>)"
    by (simp add: setStoredUser_def setItem_def take_fault_def demo_store_def)
  have f: "isAuthenticated demo_session"
    by (simp add: demo_session_def authenticated_def)
  show ?thesis
    using a b c d e f
      refreshUser_frame [of unauthenticated getMe_ok demo_stringify "demo_store []"]
      refreshUser_frame [of demo_session getMe_down demo_stringify "demo_store []"]
      refreshUser_frame [of "demo_session\<lparr>user := None\<rparr>" getMe_ok demo_stringify "demo_store []"]
    by (simp add: final_def updates_def)
qed

section \<open>The session invariant\<close>

lemma consistent_simps [simp]:
  "auth_consistent initial_state"
  "auth_consistent unauthenticated"
  "auth_consistent (authenticated sid u r)"
  "auth_consistent (s\<lparr>isLoading := b\<rparr>) = auth_consistent s"
  "auth_consistent s \<Longrightarrow> auth_consistent (s\<lparr>user := Some u, partnerId := p\<rparr>)"
  by (auto simp: auth_consistent_def initial_state_def unauthenticated_def authenticated_def)

lemma initializeAuth_consistent:
  "s' \<in> set (updates (initializeAuth getMe parse stringify st)) \<Longrightarrow> auth_consistent s'"
  by (auto simp: initializeAuth_def session_invalid_def updates_def
      split: prod.splits sum.splits if_splits)

lemma handleAuthSuccess_consistent:
  "s' \<in> set (updates (handleAuthSuccess getMe stringify sid st)) \<Longrightarrow> auth_consistent s'"
  by (auto simp: handleAuthSuccess_def updates_def split: prod.splits sum.splits)

lemma login_try_consistent:
  "s' \<in> set (updates (login_try browser parse_url getMe stringify st)) \<Longrightarrow> auth_consistent s'"
  using handleAuthSuccess_consistent
  by (auto simp: login_try_def updates_def
      split: sum.splits AuthSessionResult.splits if_splits)

lemma final_consistent:
  "auth_consistent s \<Longrightarrow> \<forall>x\<in>set tr. auth_consistent x \<Longrightarrow> auth_consistent (final s tr)"
  by (cases "tr = []") (auto simp: final_def)

lemma login_consistent:
  assumes "auth_consistent s"
    and "s' \<in> set (updates (login browser parse_url getMe stringify s st))"
  shows "auth_consistent s'"
proof -
  obtain r tr st' where t: "login_try browser parse_url getMe stringify st = (r, tr, st')"
    by (cases "login_try browser parse_url getMe stringify st") auto
  have tr: "\<forall>x\<in>set tr. auth_consistent x"
    using login_try_consistent [of _ browser parse_url getMe stringify st] t
    by (simp add: updates_def)
  have "auth_consistent (final (s\<lparr>isLoading := True\<rparr>) tr)"
    using final_consistent [of "s\<lparr>isLoading := True\<rparr>" tr] assms(1) tr by simp
  with assms tr t show ?thesis
    by (auto simp: login_def updates_def)
qed

lemma logout_consistent:
  "auth_consistent s \<Longrightarrow> s' \<in> set (updates (logout apiLogout s st)) \<Longrightarrow> auth_consistent s'"
  by (auto simp: logout_def logout_catch_def updates_def split: prod.splits sum.splits if_splits)

lemma refreshUser_consistent:
  "auth_consistent s \<Longrightarrow> s' \<in> set (updates (refreshUser getMe stringify s st))
     \<Longrightarrow> auth_consistent s'"
  by (auto simp: refreshUser_def updates_def split: prod.splits sum.splits if_splits)

lemma reachable_consistent: "auth_reachable s \<Longrightarrow> auth_consistent s"
proof (induction rule: auth_reachable.induct)
  case start
  show ?case by simp
next
  case (by_initializeAuth s' getMe parse stringify st)
  then show ?case by (rule initializeAuth_consistent)
next
  case (by_login s s' browser parse_url getMe stringify st)
  then show ?case using login_consistent by blast
next
  case (by_logout s s' apiLogout st)
  then show ?case using logout_consistent by blast
next
  case (by_refreshUser s s' getMe stringify st)
  then show ?case using refreshUser_consistent by blast
qed

lemma demo_session_reachable: "auth_reachable demo_session"
proof -
  have "demo_session \<in> set (updates (initializeAuth getMe_ok demo_parse demo_stringify (demo_store [])))"
    by (simp add: initializeAuth_def storage_defs demo_defs run_defs demo_session_def)
  then show ?thesis by (rule auth_reachable.by_initializeAuth)
qed

text \<open>
  C5. In the initial state and in every state set afterwards by \<open>initializeAuth\<close>,
  \<open>login\<close>, \<open>logout\<close> and \<open>refreshUser\<close>, at each of their updates and on every
  branch, \<open>isAuthenticated\<close> holds exactly when both an identity and a user are held.
\<close>

theorem session_invariant:
  "auth_reachable s \<Longrightarrow> isAuthenticated s = (spotifyId s \<noteq> None \<and> user s \<noteq> None)"
  using reachable_consistent [of s] by (auto simp: auth_consistent_def)

theorem session_invariant_witness:
  "auth_reachable demo_session \<and> isAuthenticated demo_session \<and>
   spotifyId demo_session = Some ''u1'' \<and> user demo_session \<noteq> None \<and>
   auth_reachable initial_state \<and> \<not> isAuthenticated initial_state \<and>
   spotifyId initial_state = None"
  using session_invariant [OF demo_session_reachable] session_invariant [OF auth_reachable.start]
    demo_session_reachable auth_reachable.start
  by (simp add: demo_session_def authenticated_def initial_state_def)

section \<open>The states the provider reaches\<close>

lemma update_socket_simps [simp]:
  "length (sockets (update_socket i f m)) = length (sockets m)"
  "socketRef (update_socket i f m) = socketRef m"
  "isConnected (update_socket i f m) = isConnected m"
  "isPartnerOnline (update_socket i f m) = isPartnerOnline m"
  "partnerStatus (update_socket i f m) = partnerStatus m"
  "handlers_made (update_socket i f m) = handlers_made m"
  "calls (update_socket i f m) = calls m"
  by (simp_all add: update_socket_def)

lemma nth_update_socket:
  "j < length (sockets m) \<Longrightarrow>
     sockets (update_socket i f m) ! j = (if j = i then f (sockets m ! j) else sockets m ! j)"
  by (simp add: update_socket_def nth_list_update)

lemma inv_init: "provider_inv provider_init"
  by (simp add: provider_inv_def provider_init_def)

lemma inv_disconnect:
  "provider_inv m \<Longrightarrow> provider_inv (disconnectSocket m) \<and> socketRef (disconnectSocket m) = None"
  by (auto simp: provider_inv_def disconnectSocket_def nth_update_socket socket_disconnect_def
      split: option.splits)

lemma inv_connect:
  "provider_inv m \<Longrightarrow> socketRef m = None \<Longrightarrow> provider_inv (connectSocket sid m)"
  by (auto simp: provider_inv_def connectSocket_def held_connected_def io_def nth_append)

lemma inv_effect_body:
  "provider_inv m \<Longrightarrow> socketRef m = None \<Longrightarrow> provider_inv (effect_body a sid m)"
  by (simp add: effect_body_def inv_connect inv_disconnect)

lemma inv_deliver: "provider_inv m \<Longrightarrow> provider_inv (deliver i ev m)"
  by (cases ev)
    (auto simp: provider_inv_def deliver_def socket_at_def nth_update_socket on_connect_def
      on_disconnect_def on_partner_online_def on_partner_offline_def on_partner_status_def
      split: option.splits if_splits)

lemma inv_subscribe: "provider_inv m \<Longrightarrow> provider_inv (snd (onSyncCommand cb m))"
  by (auto simp: provider_inv_def onSyncCommand_def nth_update_socket socket_on_def less_Suc_eq
      split: option.splits)

lemma set_remove_listener: "set (remove_listener h ls) \<subseteq> set ls"
  by (induction ls) auto

lemma inv_detach: "provider_inv m \<Longrightarrow> provider_inv (detach_sync h m)"
  using set_remove_listener
  by (fastforce simp: provider_inv_def detach_sync_def nth_update_socket socket_off_def
      split: option.splits)

lemma reachable_inv: "provider_reachable m \<Longrightarrow> provider_inv m"
proof (induction rule: provider_reachable.induct)
  case created
  show ?case by (rule inv_init)
next
  case (mounted isAuth sid)
  show ?case by (rule inv_effect_body [OF inv_init]) (simp add: provider_init_def)
next
  case (rerun m isAuth sid)
  then show ?case by (simp add: effect_cleanup_def inv_effect_body inv_disconnect)
next
  case (unmounted m)
  then show ?case by (simp add: effect_cleanup_def inv_disconnect)
next
  case (inbound m i ev)
  then show ?case by (simp add: inv_deliver)
next
  case (subscribed m callback)
  then show ?case by (simp add: inv_subscribe)
next
  case (detached m h)
  then show ?case by (simp add: inv_detach)
qed

lemma filter_only: "i < n \<Longrightarrow> filter (\<lambda>j. i = j) [0..<n] = [i]"
  by (induction n) (auto simp: less_Suc_eq)

lemma inv_open_sockets:
  assumes "provider_inv m"
  shows "open_sockets m = (case socketRef m of None \<Rightarrow> [] | Some i \<Rightarrow> [i])"
proof -
  have "open_sockets m = filter (\<lambda>j. socketRef m = Some j) [0..<length (sockets m)]"
    unfolding open_sockets_def using assms
    by (intro filter_cong) (auto simp: provider_inv_def)
  also have "\<dots> = (case socketRef m of None \<Rightarrow> [] | Some i \<Rightarrow> [i])"
    using assms by (auto simp: provider_inv_def filter_only split: option.splits)
  finally show ?thesis .
qed

lemma demo_channel_reachable: "provider_reachable demo_channel"
  unfolding demo_channel_def
  by (intro provider_reachable.inbound provider_reachable.mounted)

section \<open>connectSocket\<close>

text \<open>For an identity, the effect's cleanup and body are \<open>disconnectSocket\<close> and then \<open>connectSocket\<close>.\<close>

lemma effect_rerun_connects:
  "truthy sid \<Longrightarrow> effect_body True sid (effect_cleanup m) = connectSocket sid (disconnectSocket m)"
  by (simp add: effect_body_def effect_cleanup_def)

lemma connect_after_cleanup:
  assumes "provider_inv m"
  shows "provider_inv (connectSocket sid (disconnectSocket m)) \<and>
     socketRef (connectSocket sid (disconnectSocket m)) = Some (length (sockets m))"
proof -
  have d: "provider_inv (disconnectSocket m)" "socketRef (disconnectSocket m) = None"
    using inv_disconnect [OF assms] by simp_all
  have "length (sockets (disconnectSocket m)) = length (sockets m)"
    by (simp add: disconnectSocket_def split: option.splits)
  then have "socketRef (connectSocket sid (disconnectSocket m)) = Some (length (sockets m))"
    using d(2) by (simp add: connectSocket_def held_connected_def)
  with inv_connect [OF d] show ?thesis by simp
qed

text \<open>
  C3. In every state the provider reaches: \<open>connectSocket\<close> called twice on a
  connected socket changes nothing and leaves exactly one connection open; the
  provider's connect, which is the effect's cleanup followed by \<open>connectSocket\<close>,
  closes the socket held before and leaves exactly one connection open, the new one,
  also when it is made twice in succession; and at most one connection is open.
\<close>

theorem connect_one_open_connection:
  assumes "provider_reachable m"
  shows
    "(held_connected m \<longrightarrow>
        connectSocket sid (connectSocket sid m) = m \<and>
        length (open_sockets (connectSocket sid (connectSocket sid m))) = 1) \<and>
     open_sockets (connectSocket sid (disconnectSocket m)) = [length (sockets m)] \<and>
     socketRef (connectSocket sid (disconnectSocket m)) = Some (length (sockets m)) \<and>
     (\<forall>j. socketRef m = Some j \<longrightarrow>
        closed (sockets (disconnectSocket m) ! j) \<and>
        closed (sockets (connectSocket sid (disconnectSocket m)) ! j)) \<and>
     open_sockets (connectSocket sid' (disconnectSocket (connectSocket sid (disconnectSocket m))))
       = [Suc (length (sockets m))] \<and>
     length (open_sockets m) \<le> 1"
proof -
  have inv: "provider_inv m" by (rule reachable_inv [OF assms])
  let ?m1 = "connectSocket sid (disconnectSocket m)"
  have c1: "provider_inv ?m1" "socketRef ?m1 = Some (length (sockets m))"
    using connect_after_cleanup [OF inv] by simp_all
  have o1: "open_sockets ?m1 = [length (sockets m)]"
    using inv_open_sockets [OF c1(1)] c1(2) by simp
  have len1: "length (sockets ?m1) = Suc (length (sockets m))"
    using inv_disconnect [OF inv]
    by (simp add: connectSocket_def held_connected_def disconnectSocket_def split: option.splits)
  have c2: "provider_inv (connectSocket sid' (disconnectSocket ?m1))"
      "socketRef (connectSocket sid' (disconnectSocket ?m1)) = Some (length (sockets ?m1))"
    using connect_after_cleanup [OF c1(1)] by simp_all
  have o2: "open_sockets (connectSocket sid' (disconnectSocket ?m1)) = [Suc (length (sockets m))]"
    using inv_open_sockets [OF c2(1)] c2(2) len1 by simp
  have most: "length (open_sockets m) \<le> 1"
    using inv_open_sockets [OF inv] by (simp split: option.splits)
  have idem: "held_connected m \<longrightarrow>
        connectSocket sid (connectSocket sid m) = m \<and>
        length (open_sockets (connectSocket sid (connectSocket sid m))) = 1"
    using inv_open_sockets [OF inv]
    by (auto simp: connectSocket_def held_connected_def split: option.splits)
  have prior: "\<forall>j. socketRef m = Some j \<longrightarrow>
        closed (sockets (disconnectSocket m) ! j) \<and> closed (sockets ?m1 ! j)"
  proof (intro allI impI)
    fix j assume r: "socketRef m = Some j"
    then have j: "j < length (sockets m)" using inv by (simp add: provider_inv_def)
    have d: "provider_inv (disconnectSocket m)" "socketRef (disconnectSocket m) = None"
      using inv_disconnect [OF inv] by simp_all
    have lend: "length (sockets (disconnectSocket m)) = length (sockets m)"
      by (simp add: disconnectSocket_def split: option.splits)
    have a: "closed (sockets (disconnectSocket m) ! j)"
      using d j lend by (simp add: provider_inv_def)
    have b: "closed (sockets ?m1 ! j)"
      using c1 j len1 by (simp add: provider_inv_def)
    from a b show "closed (sockets (disconnectSocket m) ! j) \<and> closed (sockets ?m1 ! j)" ..
  qed
  from idem o1 c1(2) prior o2 most show ?thesis by blast
qed

theorem connect_one_open_connection_witness:
  "provider_reachable demo_channel \<and> held_connected demo_channel \<and>
   socketRef demo_channel = Some 0 \<and>
   connectSocket (Some ''u1'') (connectSocket (Some ''u1'') demo_channel) = demo_channel \<and>
   open_sockets (connectSocket (Some ''u1'') (connectSocket (Some ''u1'') demo_channel)) = [0] \<and>
   open_sockets (connectSocket (Some ''u9'') (disconnectSocket demo_channel)) = [1] \<and>
   closed (sockets (connectSocket (Some ''u9'') (disconnectSocket demo_channel)) ! 0)"
proof -
  have h: "held_connected demo_channel"
    by (simp add: demo_channel_def socket_defs)
  have r: "socketRef demo_channel = Some 0"
    by (simp add: demo_channel_def socket_defs)
  have n: "length (sockets demo_channel) = 1"
    by (simp add: demo_channel_def socket_defs)
  have o: "open_sockets demo_channel = [0]"
    by (simp add: demo_channel_def socket_defs)
  show ?thesis
    using h r n o demo_channel_reachable
      connect_one_open_connection [OF demo_channel_reachable, of "Some ''u1''"]
      connect_one_open_connection [OF demo_channel_reachable, of "Some ''u9''"]
    by simp
qed

section \<open>disconnectSocket\<close>

text \<open>
  C7. In every state the provider reaches, whether or not a socket is held, after
  \<open>disconnectSocket\<close> the provider is not connected, the partner is not online,
  there is no partner status, no socket is held and none is open; and a second
  \<open>disconnectSocket\<close> changes nothing.
\<close>

theorem disconnect_resets:
  assumes "provider_reachable m"
  shows "\<not> isConnected (disconnectSocket m) \<and> \<not> isPartnerOnline (disconnectSocket m) \<and>
     partnerStatus (disconnectSocket m) = None \<and> socketRef (disconnectSocket m) = None \<and>
     open_sockets (disconnectSocket m) = [] \<and>
     disconnectSocket (disconnectSocket m) = disconnectSocket m"
proof -
  have i: "provider_inv (disconnectSocket m)" and n: "socketRef (disconnectSocket m) = None"
    using inv_disconnect [OF reachable_inv [OF assms]] by simp_all
  have "open_sockets (disconnectSocket m) = []"
    using inv_open_sockets [OF i] n by simp
  moreover have "disconnectSocket (disconnectSocket m) = disconnectSocket m"
    using n by (simp add: disconnectSocket_def [of "disconnectSocket m"])
  ultimately show ?thesis
    using i n by (simp add: provider_inv_def)
qed

theorem disconnect_resets_witness:
  "provider_reachable (provider_init :: string SocketProvider) \<and>
   socketRef (provider_init :: string SocketProvider) = None \<and>
   \<not> isConnected (disconnectSocket (provider_init :: string SocketProvider)) \<and>
   provider_reachable demo_channel \<and> isConnected demo_channel \<and>
   \<not> isConnected (disconnectSocket demo_channel) \<and>
   \<not> isPartnerOnline (disconnectSocket demo_channel) \<and>
   partnerStatus (disconnectSocket demo_channel) = None \<and>
   disconnectSocket (disconnectSocket demo_channel) = disconnectSocket demo_channel"
proof -
  have c: "isConnected demo_channel"
    by (simp add: demo_channel_def socket_defs)
  show ?thesis
    using c demo_channel_reachable provider_reachable.created [where ?'cb = string]
      disconnect_resets [OF demo_channel_reachable]
      disconnect_resets [OF provider_reachable.created [where ?'cb = string]]
    by (simp add: provider_init_def)
qed

section \<open>The partner's status\<close>

text \<open>
  C6. When the transport emits \<open>partner:status\<close> on a socket that is not closed,
  the payload becomes the partner status whatever the status was before, and the
  partner is online afterwards if the payload says it is listening (and otherwise as
  before), whether or not \<open>partner:online\<close> was ever received.
\<close>

theorem partner_status_replaces:
  assumes "socket_at m i = Some sk" and "\<not> closed sk"
  shows "partnerStatus (deliver i (PartnerStatusEvent data) m) = Some data \<and>
     isPartnerOnline (deliver i (PartnerStatusEvent data) m) = (isListening data \<or> isPartnerOnline m)"
  using assms by (simp add: deliver_def on_partner_status_def)

theorem partner_status_replaces_witness:
  "socket_at (deliver 0 (PartnerStatusEvent (demo_status False ''W'')) demo_channel) 0
     = Some \<lparr>query_spotifyId = Some ''u1'', connected = True, closed = False, sync_listeners = []\<rparr> \<and>
   partnerStatus (deliver 0 (PartnerStatusEvent (demo_status False ''W'')) demo_channel)
     = Some (demo_status False ''W'') \<and>
   \<not> isPartnerOnline (deliver 0 (PartnerStatusEvent (demo_status False ''W'')) demo_channel) \<and>
   partnerStatus (deliver 0 (PartnerStatusEvent (demo_status True ''X''))
      (deliver 0 (PartnerStatusEvent (demo_status False ''W'')) demo_channel))
     = Some (demo_status True ''X'') \<and>
   isPartnerOnline (deliver 0 (PartnerStatusEvent (demo_status True ''X''))
      (deliver 0 (PartnerStatusEvent (demo_status False ''W'')) demo_channel))"
proof -
  let ?m = "deliver 0 (PartnerStatusEvent (demo_status False ''W'')) demo_channel"
  let ?sk = "\<lparr>query_spotifyId = Some ''u1'', connected = True, closed = False,
     sync_listeners = [] :: (nat \<times> string) list\<rparr>"
  have a: "socket_at ?m 0 = Some ?sk"
    by (simp add: demo_channel_def socket_defs)
  have b: "\<not> closed ?sk" by simp
  have c: "partnerStatus ?m = Some (demo_status False ''W'')" "\<not> isPartnerOnline ?m"
    by (simp_all add: demo_channel_def socket_defs demo_status_def)
  show ?thesis
    using a c partner_status_replaces [OF a b, of "demo_status True ''X''"]
    by (simp add: demo_status_def)
qed

section \<open>onSyncCommand\<close>

lemma remove_listener_fresh:
  "\<forall>l\<in>set ls. fst l \<noteq> h \<Longrightarrow> remove_listener h (ls @ (h, c) # rest) = ls @ rest"
  by (induction ls) auto

lemma detach_first_of_two_held:
  assumes "provider_inv m" and "socketRef m = Some i"
  shows "detach_first_of_two cb1 cb2 m =
     (update_socket i (socket_on (Suc (handlers_made m), cb2)) m)
       \<lparr>handlers_made := Suc (Suc (handlers_made m))\<rparr>"
proof -
  have i: "i < length (sockets m)"
    using assms by (simp add: provider_inv_def)
  have fresh: "\<forall>l\<in>set (sync_listeners (sockets m ! i)). fst l \<noteq> handlers_made m"
    using assms i by (fastforce simp: provider_inv_def)
  show ?thesis
    using i assms(2) remove_listener_fresh [OF fresh, of cb1 "[(Suc (handlers_made m), cb2)]"]
    by (simp add: detach_first_of_two_def onSyncCommand_def detach_sync_def update_socket_def
        socket_on_def socket_off_def)
qed

lemma detach_first_of_two_none:
  assumes "socketRef m = None"
  shows "detach_first_of_two cb1 cb2 m = m\<lparr>handlers_made := Suc (Suc (handlers_made m))\<rparr>"
  using assms by (simp add: detach_first_of_two_def onSyncCommand_def detach_sync_def)

lemma listeners_detach_first_of_two:
  assumes "provider_inv m"
  shows "map snd (listeners_at (detach_first_of_two cb1 cb2 m) j) =
     map snd (listeners_at (snd (onSyncCommand cb2 m)) j)"
proof (cases "socketRef m")
  case None
  then show ?thesis
    by (simp add: detach_first_of_two_none onSyncCommand_def listeners_at_def socket_at_def)
next
  case (Some i)
  then show ?thesis
    by (simp add: detach_first_of_two_held [OF assms Some] onSyncCommand_def listeners_at_def
        socket_at_def update_socket_def socket_on_def nth_list_update)
qed

lemma sync_all_calls:
  "socket_at m i = Some sk \<Longrightarrow> \<not> closed sk \<Longrightarrow>
     calls (sync_all i commands m) =
       calls m @ concat (map (\<lambda>c. map (\<lambda>l. (snd l, c)) (sync_listeners sk)) commands) \<and>
     sockets (sync_all i commands m) = sockets m"
proof (induction commands arbitrary: m)
  case Nil
  then show ?case by (simp add: sync_all_def)
next
  case (Cons c commands)
  let ?m = "deliver i (SessionSync c) m"
  have d: "?m = m\<lparr>calls := calls m @ map (\<lambda>l. (snd l, c)) (sync_listeners sk)\<rparr>"
    using Cons.prems by (simp add: deliver_def)
  then have "socket_at ?m i = Some sk"
    using Cons.prems by (simp add: socket_at_def split: if_splits)
  from Cons.IH [OF this Cons.prems(2)] d show ?case
    by (simp add: sync_all_def)
qed

text \<open>
  C9. Two registrations with \<open>onSyncCommand\<close>, then the detach function of the
  first: on every socket the callbacks registered are those there would be had only the
  second been registered. On the held socket the second handler follows the listeners
  that were there before, the first handler is gone, and every \<open>session:sync\<close>
  emitted afterwards reaches the earlier listeners and then the second callback.
\<close>

theorem detach_first_keeps_second:
  assumes "provider_reachable m"
  shows
    "(\<forall>j. map snd (listeners_at (detach_first_of_two cb1 cb2 m) j) =
          map snd (listeners_at (snd (onSyncCommand cb2 m)) j)) \<and>
     (\<forall>i. socketRef m = Some i \<longrightarrow>
        listeners_at (detach_first_of_two cb1 cb2 m) i =
          listeners_at m i @ [(Suc (handlers_made m), cb2)] \<and>
        calls (sync_all i commands (detach_first_of_two cb1 cb2 m)) =
          calls m @
          concat (map (\<lambda>c. map (\<lambda>l. (snd l, c)) (listeners_at m i) @ [(cb2, c)]) commands))"
proof (intro conjI allI impI)
  fix j
  show "map snd (listeners_at (detach_first_of_two cb1 cb2 m) j) =
          map snd (listeners_at (snd (onSyncCommand cb2 m)) j)"
    by (rule listeners_detach_first_of_two [OF reachable_inv [OF assms]])
next
  fix i
  assume r: "socketRef m = Some i"
  have inv: "provider_inv m" by (rule reachable_inv [OF assms])
  have i: "i < length (sockets m)" and o: "\<not> closed (sockets m ! i)"
    using inv r by (simp_all add: provider_inv_def)
  let ?m3 = "detach_first_of_two cb1 cb2 m"
  let ?sk = "socket_on (Suc (handlers_made m), cb2) (sockets m ! i)"
  have at: "socket_at ?m3 i = Some ?sk"
    using i by (simp add: detach_first_of_two_held [OF inv r] socket_at_def update_socket_def)
  show l: "listeners_at ?m3 i = listeners_at m i @ [(Suc (handlers_made m), cb2)]"
    using i at by (simp add: listeners_at_def socket_at_def socket_on_def)
  have c: "calls ?m3 = calls m"
    by (simp add: detach_first_of_two_held [OF inv r])
  have "\<not> closed ?sk" using o by (simp add: socket_on_def)
  from sync_all_calls [OF at this, of commands] c i
  show "calls (sync_all i commands ?m3) =
          calls m @
          concat (map (\<lambda>c. map (\<lambda>l. (snd l, c)) (listeners_at m i) @ [(cb2, c)]) commands)"
    by (simp add: listeners_at_def socket_at_def socket_on_def)
qed

theorem detach_first_keeps_second_witness:
  "provider_reachable demo_channel \<and> socketRef demo_channel = Some 0 \<and>
   calls (sync_all 0 [demo_command ''a'', demo_command ''b'']
      (detach_first_of_two ''first'' ''second'' demo_channel)) =
     [(''second'', demo_command ''a''), (''second'', demo_command ''b'')]"
proof -
  have r: "socketRef demo_channel = Some 0"
    by (simp add: demo_channel_def socket_defs)
  have l: "listeners_at demo_channel 0 = []" and c: "calls demo_channel = []"
    by (simp_all add: demo_channel_def listeners_at_def socket_defs)
  show ?thesis
    using r l c demo_channel_reachable
      detach_first_keeps_second [OF demo_channel_reachable, of "''first''" "''second''"
        "[demo_command ''a'', demo_command ''b'']"]
    by simp
qed

end
